theory Spec2Isabelle
  imports Complex_Main
begin

section \<open>Python values\<close>

text \<open>
  The task manager is dynamically typed: the constructor of \<open>Task\<close> tests the types of its
  arguments with \<open>isinstance\<close>, and \<open>import_tasks\<close> receives whatever \<open>json.load\<close> read.
  The values that can flow through it are therefore modelled by one datatype, the values
  that JSON can represent.

  A Python float is either a finite number (modelled by the real number it denotes; the
  program only compares floats with zero, which is exact), an infinity or NaN.
  A \<open>dict\<close> is an association list in insertion order; the keys of a real \<open>dict\<close> are
  distinct. A \<open>str\<close> is a \<open>string\<close> whose characters are read as code points below 256.
\<close>

datatype pyfloat = Fin real | PosInf | NegInf | NaN

datatype pyval =
    PyNone
  | PyBool bool
  | PyInt int
  | PyFloat pyfloat
  | PyStr (str_of: string)
  | PyList "pyval list"
  | PyDict "(string \<times> pyval) list"

text \<open>The exceptions the modelled code can raise.\<close>

datatype pyerr =
    ValueError string
  | KeyError string
  | AttributeError
  | TypeError
  | EOFError

subsection \<open>Strings\<close>

text \<open>
  \<open>str.strip()\<close> removes leading and trailing whitespace. The whitespace code points below
  256 are 9 to 13, 28 to 32, 133 and 160.
\<close>

definition is_space :: "char \<Rightarrow> bool" where
  "is_space c = ((of_char c :: nat) \<in> {9, 10, 11, 12, 13, 28, 29, 30, 31, 32, 133, 160})"

definition py_strip :: "string \<Rightarrow> string" where
  "py_strip s = dropWhile is_space (rev (dropWhile is_space (rev s)))"

text \<open>
  \<open>str.upper()\<close> and \<open>str.lower()\<close> on the ASCII letters. Characters outside ASCII are left
  as they are: Python maps them to characters outside ASCII (or to \<open>SS\<close>), so whether the
  result is one of \<open>LOW\<close>, \<open>MID\<close>, \<open>HIGH\<close>, the only use made of it, is the same.
\<close>

definition upper_char :: "char \<Rightarrow> char" where
  "upper_char c =
     (case map_of (zip ''abcdefghijklmnopqrstuvwxyz'' ''ABCDEFGHIJKLMNOPQRSTUVWXYZ'') c of
        Some d \<Rightarrow> d | None \<Rightarrow> c)"

definition lower_char :: "char \<Rightarrow> char" where
  "lower_char c =
     (case map_of (zip ''ABCDEFGHIJKLMNOPQRSTUVWXYZ'' ''abcdefghijklmnopqrstuvwxyz'') c of
        Some d \<Rightarrow> d | None \<Rightarrow> c)"

definition py_upper :: "string \<Rightarrow> string" where
  "py_upper s = map upper_char s"

definition py_lower :: "string \<Rightarrow> string" where
  "py_lower s = map lower_char s"

subsection \<open>Operations on dynamically typed values\<close>

text \<open>\<open>data[key]\<close> with a string key: only a dict can be subscripted by a string.\<close>

definition py_getitem :: "pyval \<Rightarrow> string \<Rightarrow> pyerr + pyval" where
  "py_getitem data key =
     (case data of
        PyDict kvs \<Rightarrow> (case map_of kvs key of None \<Rightarrow> Inl (KeyError key) | Some v \<Rightarrow> Inr v)
      | _ \<Rightarrow> Inl TypeError)"

text \<open>\<open>data.get(key, dflt)\<close>: only a dict has the method.\<close>

definition py_get :: "pyval \<Rightarrow> string \<Rightarrow> pyval \<Rightarrow> pyerr + pyval" where
  "py_get data key dflt =
     (case data of
        PyDict kvs \<Rightarrow> (case map_of kvs key of None \<Rightarrow> Inr dflt | Some v \<Rightarrow> Inr v)
      | _ \<Rightarrow> Inl AttributeError)"

text \<open>
  The elements a \<open>for\<close> loop visits: those of a list, the keys of a dict, the characters
  of a string; anything else is not iterable.
\<close>

definition py_iter :: "pyval \<Rightarrow> pyerr + pyval list" where
  "py_iter v =
     (case v of
        PyList xs \<Rightarrow> Inr xs
      | PyDict kvs \<Rightarrow> Inr (map (\<lambda>kv. PyStr (fst kv)) kvs)
      | PyStr s \<Rightarrow> Inr (map (\<lambda>c. PyStr [c]) s)
      | _ \<Rightarrow> Inl TypeError)"

text \<open>\<open>v.upper()\<close>: only a string has the method.\<close>

definition py_upper_method :: "pyval \<Rightarrow> pyerr + string" where
  "py_upper_method v = (case v of PyStr s \<Rightarrow> Inr (py_upper s) | _ \<Rightarrow> Inl AttributeError)"

text \<open>\<open>isinstance(v, str)\<close> and \<open>isinstance(v, (int, float))\<close>; \<open>bool\<close> is a subclass of \<open>int\<close>.\<close>

definition isinstance_str :: "pyval \<Rightarrow> bool" where
  "isinstance_str v = (case v of PyStr _ \<Rightarrow> True | _ \<Rightarrow> False)"

definition isinstance_int_float :: "pyval \<Rightarrow> bool" where
  "isinstance_int_float v =
     (case v of PyInt _ \<Rightarrow> True | PyBool _ \<Rightarrow> True | PyFloat _ \<Rightarrow> True | _ \<Rightarrow> False)"

text \<open>
  \<open>v <= 0\<close> for a number. Every comparison with NaN is false. The case of a value that is
  not a number is never reached: the constructor tests the type first.
\<close>

definition le_zero :: "pyval \<Rightarrow> bool" where
  "le_zero v =
     (case v of
        PyInt i \<Rightarrow> i \<le> 0
      | PyBool b \<Rightarrow> \<not> b
      | PyFloat f \<Rightarrow> (case f of Fin x \<Rightarrow> x \<le> 0 | PosInf \<Rightarrow> False | NegInf \<Rightarrow> True | NaN \<Rightarrow> False)
      | _ \<Rightarrow> False)"

text \<open>The truth value of an object, as \<open>if not v\<close> reads it.\<close>

definition truthy :: "pyval \<Rightarrow> bool" where
  "truthy v =
     (case v of
        PyNone \<Rightarrow> False
      | PyBool b \<Rightarrow> b
      | PyInt i \<Rightarrow> i \<noteq> 0
      | PyFloat f \<Rightarrow> (case f of Fin x \<Rightarrow> x \<noteq> 0 | _ \<Rightarrow> True)
      | PyStr s \<Rightarrow> s \<noteq> []
      | PyList xs \<Rightarrow> xs \<noteq> []
      | PyDict kvs \<Rightarrow> kvs \<noteq> [])"

section \<open>The enumerations\<close>

datatype Operation = DELETE | ADD

datatype Priority = LOW | MID | HIGH

text \<open>The attribute \<open>name\<close> of a member.\<close>

fun Priority_name :: "Priority \<Rightarrow> string" where
  "Priority_name LOW = ''LOW''"
| "Priority_name MID = ''MID''"
| "Priority_name HIGH = ''HIGH''"

text \<open>\<open>Priority[s]\<close>: the member of that name, or \<open>KeyError\<close>.\<close>

definition Priority_getitem :: "string \<Rightarrow> pyerr + Priority" where
  "Priority_getitem s =
     (if s = ''LOW'' then Inr LOW
      else if s = ''MID'' then Inr MID
      else if s = ''HIGH'' then Inr HIGH
      else Inl (KeyError s))"

text \<open>
  An argument of the constructor that may be a member of \<open>Priority\<close> or any other value.
\<close>

datatype pyarg = Member (member_of: Priority) | Other pyval

definition isinstance_Priority :: "pyarg \<Rightarrow> bool" where
  "isinstance_Priority a = (case a of Member _ \<Rightarrow> True | Other _ \<Rightarrow> False)"

section \<open>Task\<close>

record Task =
  task_name :: string
  description :: pyval
  priority :: Priority
  conclude_time :: pyval
  is_completed :: pyval

text \<open>
  \<open>Task.__init__\<close>: the three checks in the order of the source, each raising \<open>ValueError\<close>
  with its message; then the fields are set and the task is not completed.
\<close>

definition Task_init :: "pyval \<Rightarrow> pyval \<Rightarrow> pyarg \<Rightarrow> pyval \<Rightarrow> pyerr + Task" where
  "Task_init name descr prio ctime =
     (if \<not> isinstance_str name \<or> py_strip (str_of name) = [] then
        Inl (ValueError ''Task name cannot be empty.'')
      else if \<not> isinstance_Priority prio then
        Inl (ValueError ''Priority must be a valid Priority Enum member.'')
      else if \<not> isinstance_int_float ctime \<or> le_zero ctime then
        Inl (ValueError ''Duration must be a positive number.'')
      else
        Inr \<lparr> task_name = str_of name, description = descr, priority = member_of prio,
              conclude_time = ctime, is_completed = PyBool False \<rparr>)"

text \<open>
  What the program prints and the timers it starts, in order of occurrence. Each
  constructor stands for one statement of the source:
  \<^item> \<open>Completed n\<close>: ``Task 'n' was completed successfully.''
  \<^item> \<open>AlreadyCompleted n\<close>: ``Task 'n' is already completed.''
  \<^item> \<open>Removed n p\<close>: ``Task 'n' removed from p priority list.''
  \<^item> \<open>NotFound n p\<close>: ``Task 'n' not found in p priority list.''
  \<^item> \<open>CycleHeader i n\<close>: ``--- Pomodoro Cycle i/n ---''
  \<^item> \<open>Timer m d\<close>: the call \<open>utils.timer_logic(m, time_value=d)\<close>
  \<^item> \<open>CyclesFinished\<close>: ``Pomodoro cycles finished.''
  \<^item> \<open>StatusUnchanged n\<close>: ``Task 'n' status remains unchanged.''
  \<^item> \<open>InvalidInput\<close>: ``Invalid input. Please enter 1 or 0.''
  \<^item> \<open>Exported\<close>: ``Tasks successfully exported to 'Task_lists.json'.''
  \<^item> \<open>SaveError\<close>: ``Error saving tasks to file: ...''
  \<^item> \<open>Imported\<close>: ``Tasks successfully imported from 'Task_lists.json'.''
  \<^item> \<open>FileNotFound\<close>: ``Task_lists.json not found. No tasks to import.''
  \<^item> \<open>DecodeError\<close>: ``Error decoding Task_lists.json. File might be corrupted.''
  \<^item> \<open>Unexpected e\<close>: ``An unexpected error occurred during task import: e''
\<close>

datatype event =
    Completed string
  | AlreadyCompleted string
  | Removed string Priority
  | NotFound string Priority
  | CycleHeader int int
  | Timer string pyval
  | CyclesFinished
  | StatusUnchanged string
  | InvalidInput
  | Exported
  | SaveError
  | Imported
  | FileNotFound
  | DecodeError
  | Unexpected pyerr

text \<open>\<open>Task.conclude_task\<close>: the object after the call and the message printed.\<close>

definition conclude_task :: "Task \<Rightarrow> Task \<times> event" where
  "conclude_task self =
     (if \<not> truthy (is_completed self) then
        (self\<lparr>is_completed := PyBool True\<rparr>, Completed (task_name self))
      else (self, AlreadyCompleted (task_name self)))"

text \<open>
  \<open>Task.start_pomodoro\<close>. The \<open>for\<close> loop over \<open>range(repeat_times)\<close>, with \<open>i\<close> the loop
  variable: a header, the work timer, and the break timer unless the cycle is the last.
\<close>

definition work_label :: "Task \<Rightarrow> string" where
  "work_label self = ''Work interval for '' @ [CHR 0x27] @ task_name self @ [CHR 0x27]"

function pomodoro_cycles :: "Task \<Rightarrow> pyval \<Rightarrow> string \<Rightarrow> int \<Rightarrow> int \<Rightarrow> event list" where
  "pomodoro_cycles self break_time_minutes prompt_message repeat_times i =
     (if i < repeat_times then
        [CycleHeader (i + 1) repeat_times, Timer (work_label self) (conclude_time self)]
        @ (if i < repeat_times - 1 then [Timer prompt_message break_time_minutes] else [])
        @ pomodoro_cycles self break_time_minutes prompt_message repeat_times (i + 1)
      else [])"
  by pat_completeness auto
termination
  by (relation "measure (\<lambda>(self, b, p, n, i). nat (n - i))") auto

declare pomodoro_cycles.simps [simp del]

text \<open>
  The \<open>while True\<close> loop that asks whether the task is completed. Each answer typed at the
  console is given as what \<open>int(answer)\<close> makes of it: \<open>Some k\<close>, or \<open>None\<close> when \<open>int\<close> raises
  \<open>ValueError\<close>. When the console has no more lines, \<open>input\<close> raises \<open>EOFError\<close>, which the
  loop does not catch. An integer other than 0 and 1 leaves the loop silently.
\<close>

fun completion_prompt :: "int option list \<Rightarrow> Task \<Rightarrow> Task \<times> event list \<times> pyerr option" where
  "completion_prompt [] self = (self, [], Some EOFError)"
| "completion_prompt (None # answers) self =
     (case completion_prompt answers self of
        (t, evs, r) \<Rightarrow> (t, InvalidInput # evs, r))"
| "completion_prompt (Some k # answers) self =
     (if k = 1 then (case conclude_task self of (t, e) \<Rightarrow> (t, [e], None))
      else if k = 0 then (self, [StatusUnchanged (task_name self)], None)
      else (self, [], None))"

definition start_pomodoro ::
  "Task \<Rightarrow> pyval \<Rightarrow> string \<Rightarrow> int \<Rightarrow> int option list \<Rightarrow> Task \<times> event list \<times> pyerr option" where
  "start_pomodoro self break_time_minutes prompt_message repeat_times answers =
     (case completion_prompt answers self of
        (t, evs, r) \<Rightarrow>
          (t, pomodoro_cycles self break_time_minutes prompt_message repeat_times 0
              @ [CyclesFinished] @ evs, r))"

text \<open>\<open>Task._to_dict\<close> and \<open>Task._from_dict\<close>.\<close>

definition to_dict :: "Task \<Rightarrow> pyval" where
  "to_dict self =
     PyDict [(''task_name'', PyStr (task_name self)),
             (''description'', description self),
             (''priority'', PyStr (Priority_name (priority self))),
             (''conclude_time'', conclude_time self),
             (''_is_completed'', is_completed self)]"

text \<open>
  The arguments of the constructor call are evaluated from left to right, then the
  constructor runs, then the completion flag is read and stored.
\<close>

definition from_dict :: "pyval \<Rightarrow> pyerr + Task" where
  "from_dict data =
     (case py_getitem data ''task_name'' of Inl e \<Rightarrow> Inl e | Inr a1 \<Rightarrow>
     (case py_getitem data ''description'' of Inl e \<Rightarrow> Inl e | Inr a2 \<Rightarrow>
     (case py_getitem data ''priority'' of Inl e \<Rightarrow> Inl e | Inr pv \<Rightarrow>
     (case py_upper_method pv of Inl e \<Rightarrow> Inl e | Inr u \<Rightarrow>
     (case Priority_getitem u of Inl e \<Rightarrow> Inl e | Inr p \<Rightarrow>
     (case py_getitem data ''conclude_time'' of Inl e \<Rightarrow> Inl e | Inr a4 \<Rightarrow>
     (case Task_init a1 a2 (Member p) a4 of Inl e \<Rightarrow> Inl e | Inr task \<Rightarrow>
     (case py_getitem data ''_is_completed'' of Inl e \<Rightarrow> Inl e | Inr c \<Rightarrow>
        Inr (task\<lparr>is_completed := c\<rparr>)))))))))"

section \<open>TaskManager\<close>

text \<open>
  \<open>Task\<close> defines no \<open>__eq__\<close>, so \<open>task in target_list\<close> and \<open>target_list.remove(task)\<close>
  compare objects by identity. Task objects therefore live in a heap, a list indexed by
  address, and the three lists of the manager hold addresses.
\<close>

type_synonym ref = nat

record TaskManager =
  task_low :: "ref list"
  task_mid :: "ref list"
  task_high :: "ref list"

definition TaskManager_init :: TaskManager where
  "TaskManager_init = \<lparr> task_low = [], task_mid = [], task_high = [] \<rparr>"

text \<open>
  The dict of \<open>list_manager\<close> that maps a lower-case priority name to a list of the manager,
  and the write to the list found under a key (the list is mutated in place, so the write
  goes to the field it was taken from).
\<close>

definition lists_by_key :: "TaskManager \<Rightarrow> (string \<times> ref list) list" where
  "lists_by_key self =
     [(''low'', task_low self), (''mid'', task_mid self), (''high'', task_high self)]"

definition store_list :: "string \<Rightarrow> ref list \<Rightarrow> TaskManager \<Rightarrow> TaskManager" where
  "store_list key xs self =
     (if key = ''low'' then self\<lparr>task_low := xs\<rparr>
      else if key = ''mid'' then self\<lparr>task_mid := xs\<rparr>
      else self\<lparr>task_high := xs\<rparr>)"

text \<open>
  \<open>TaskManager.list_manager\<close>, with the heap \<open>h\<close> to read the fields of \<open>task\<close>: the manager
  after the call and what was printed, or the \<open>KeyError\<close> of the dict lookup.
\<close>

definition list_manager ::
  "Task list \<Rightarrow> ref \<Rightarrow> Operation \<Rightarrow> TaskManager \<Rightarrow> pyerr + TaskManager \<times> event list" where
  "list_manager h task operation self =
     (let key = py_lower (Priority_name (priority (h ! task))) in
      case map_of (lists_by_key self) key of
        None \<Rightarrow> Inl (KeyError key)
      | Some target_list \<Rightarrow>
          if operation = DELETE then
            if task \<in> set target_list then
              Inr (store_list key (remove1 task target_list) self,
                   [Removed (task_name (h ! task)) (priority (h ! task))])
            else
              Inr (self, [NotFound (task_name (h ! task)) (priority (h ! task))])
          else Inr (store_list key (target_list @ [task]) self, []))"

section \<open>Saving and importing\<close>

text \<open>
  The file \<open>Task_lists.json\<close> is absent, holds text that is not JSON, or holds a JSON
  document. \<open>json.dump\<close> followed by \<open>json.load\<close> gives back the value written, so the
  document in the file is the value itself.
\<close>

datatype file_content = Absent | Garbage | Json pyval

record world =
  heap :: "Task list"
  lm :: TaskManager
  task_file :: file_content

text \<open>The dict \<open>data\<close> that \<open>save_tasks\<close> builds.\<close>

definition save_data :: "world \<Rightarrow> pyval" where
  "save_data w =
     PyDict [(''high'', PyList (map (\<lambda>t. to_dict (heap w ! t)) (task_high (lm w)))),
             (''mid'', PyList (map (\<lambda>t. to_dict (heap w ! t)) (task_mid (lm w)))),
             (''low'', PyList (map (\<lambda>t. to_dict (heap w ! t)) (task_low (lm w))))]"

text \<open>
  \<open>save_tasks\<close>; \<open>writable\<close> tells whether the file can be opened for writing
  (otherwise \<open>IOError\<close> is caught and reported).
\<close>

definition save_tasks :: "bool \<Rightarrow> world \<Rightarrow> world \<times> event list" where
  "save_tasks writable w =
     (if writable then (w\<lparr>task_file := Json (save_data w)\<rparr>, [Exported])
      else (w, [SaveError]))"

text \<open>
  One \<open>for\<close> loop of \<open>import_tasks\<close>: each record becomes a new object, at the next free
  address, and is added to the manager. An exception ends the loop and leaves the heap and
  the manager as they are at that moment.
\<close>

fun import_loop :: "pyval list \<Rightarrow> Task list \<times> TaskManager \<Rightarrow> (Task list \<times> TaskManager) \<times> pyerr option" where
  "import_loop [] s = (s, None)"
| "import_loop (task_data # rest) (h, m) =
     (case from_dict task_data of
        Inl e \<Rightarrow> ((h, m), Some e)
      | Inr task \<Rightarrow>
          (case list_manager (h @ [task]) (length h) ADD m of
             Inl e \<Rightarrow> ((h @ [task], m), Some e)
           | Inr (m', evs) \<Rightarrow> import_loop rest (h @ [task], m')))"

text \<open>\<open>for task_data in data.get(key, []): ...\<close>\<close>

definition import_key :: "pyval \<Rightarrow> string \<Rightarrow> Task list \<times> TaskManager \<Rightarrow> (Task list \<times> TaskManager) \<times> pyerr option" where
  "import_key data key s =
     (case py_get data key (PyList []) of
        Inl e \<Rightarrow> (s, Some e)
      | Inr v \<Rightarrow> (case py_iter v of Inl e \<Rightarrow> (s, Some e) | Inr xs \<Rightarrow> import_loop xs s))"

text \<open>The three loops of \<open>import_tasks\<close>, on the document \<open>data\<close> that \<open>json.load\<close> returned.\<close>

definition import_data :: "pyval \<Rightarrow> Task list \<times> TaskManager \<Rightarrow> (Task list \<times> TaskManager) \<times> pyerr option" where
  "import_data data s =
     (case import_key data ''high'' s of
        (s1, Some e) \<Rightarrow> (s1, Some e)
      | (s1, None) \<Rightarrow>
          (case import_key data ''mid'' s1 of
             (s2, Some e) \<Rightarrow> (s2, Some e)
           | (s2, None) \<Rightarrow> import_key data ''low'' s2))"

text \<open>\<open>import_tasks\<close> with its three handlers.\<close>

definition import_tasks :: "world \<Rightarrow> world \<times> event list" where
  "import_tasks w =
     (case task_file w of
        Absent \<Rightarrow> (w, [FileNotFound])
      | Garbage \<Rightarrow> (w, [DecodeError])
      | Json data \<Rightarrow>
          (case import_data data (heap w, lm w) of
             ((h, m), None) \<Rightarrow> (w\<lparr>heap := h, lm := m\<rparr>, [Imported])
           | ((h, m), Some e) \<Rightarrow> (w\<lparr>heap := h, lm := m\<rparr>, [Unexpected e])))"

section \<open>Notions used to state the properties\<close>

text \<open>The list of the manager that belongs to a priority, and the manager with that list replaced.\<close>

definition bucket_of :: "Priority \<Rightarrow> TaskManager \<Rightarrow> ref list" where
  "bucket_of p m = (case p of LOW \<Rightarrow> task_low m | MID \<Rightarrow> task_mid m | HIGH \<Rightarrow> task_high m)"

definition set_bucket :: "Priority \<Rightarrow> ref list \<Rightarrow> TaskManager \<Rightarrow> TaskManager" where
  "set_bucket p xs m =
     (case p of LOW \<Rightarrow> m\<lparr>task_low := xs\<rparr> | MID \<Rightarrow> m\<lparr>task_mid := xs\<rparr> | HIGH \<Rightarrow> m\<lparr>task_high := xs\<rparr>)"

text \<open>The task objects a list of addresses refers to, in order.\<close>

definition tasks_of :: "Task list \<Rightarrow> ref list \<Rightarrow> Task list" where
  "tasks_of h rs = map (\<lambda>r. h ! r) rs"

text \<open>A string that consists of whitespace only (the empty string included).\<close>

definition whitespace_only :: "string \<Rightarrow> bool" where
  "whitespace_only s = list_all is_space s"

text \<open>A number that is strictly positive; \<open>True\<close> is the integer 1.\<close>

definition positive_number :: "pyval \<Rightarrow> bool" where
  "positive_number v =
     (case v of
        PyInt i \<Rightarrow> 0 < i
      | PyBool b \<Rightarrow> b
      | PyFloat f \<Rightarrow> (case f of Fin x \<Rightarrow> 0 < x | PosInf \<Rightarrow> True | NegInf \<Rightarrow> False | NaN \<Rightarrow> False)
      | _ \<Rightarrow> False)"

text \<open>
  The fields of a task that the constructor accepts: what holds of every task object,
  since no statement of the program assigns to the name, the priority or the time of an
  existing task.
\<close>

definition task_ok :: "Task \<Rightarrow> bool" where
  "task_ok t =
     (py_strip (task_name t) \<noteq> [] \<and> isinstance_int_float (conclude_time t)
      \<and> \<not> le_zero (conclude_time t))"

text \<open>
  Every address in the list under priority \<open>p\<close> is that of an object of priority \<open>p\<close>.
\<close>

definition bucket_ok :: "Task list \<Rightarrow> Priority \<Rightarrow> ref list \<Rightarrow> bool" where
  "bucket_ok h p rs = list_all (\<lambda>r. r < length h \<and> priority (h ! r) = p) rs"

definition buckets_ok :: "Task list \<Rightarrow> TaskManager \<Rightarrow> bool" where
  "buckets_ok h m =
     (bucket_ok h LOW (task_low m) \<and> bucket_ok h MID (task_mid m) \<and> bucket_ok h HIGH (task_high m))"

text \<open>No address occurs in two lists of the manager.\<close>

definition buckets_disjoint :: "TaskManager \<Rightarrow> bool" where
  "buckets_disjoint m =
     (list_all (\<lambda>r. r \<notin> set (task_mid m) \<and> r \<notin> set (task_high m)) (task_low m)
      \<and> list_all (\<lambda>r. r \<notin> set (task_high m)) (task_mid m))"

text \<open>A state of the store: the invariant of the lists, and every stored task accepted.\<close>

definition store_ok :: "world \<Rightarrow> bool" where
  "store_ok w =
     (buckets_ok (heap w) (lm w)
      \<and> list_all (\<lambda>r. task_ok (heap w ! r))
           (task_high (lm w) @ task_mid (lm w) @ task_low (lm w)))"

text \<open>A sequence of calls of \<open>list_manager\<close> on one manager.\<close>

fun run_ops :: "Task list \<Rightarrow> (ref \<times> Operation) list \<Rightarrow> TaskManager \<Rightarrow> pyerr + TaskManager" where
  "run_ops h [] m = Inr m"
| "run_ops h ((task, operation) # ops) m =
     (case list_manager h task operation m of
        Inl e \<Rightarrow> Inl e
      | Inr (m', evs) \<Rightarrow> run_ops h ops m')"

text \<open>\<open>conclude_task\<close> called \<open>n\<close> times in a row on the same object.\<close>

fun conclude_times :: "nat \<Rightarrow> Task \<Rightarrow> Task \<times> event list" where
  "conclude_times 0 t = (t, [])"
| "conclude_times (Suc n) t =
     (case conclude_task t of
        (t', e) \<Rightarrow> (case conclude_times n t' of (t'', evs) \<Rightarrow> (t'', e # evs)))"

text \<open>The timers among the events, each with its message and duration.\<close>

definition timer_calls :: "event list \<Rightarrow> (string \<times> pyval) list" where
  "timer_calls evs = concat (map (\<lambda>e. case e of Timer m d \<Rightarrow> [(m, d)] | _ \<Rightarrow> []) evs)"

text \<open>
  A document with each of the keys \<open>high\<close>, \<open>mid\<close>, \<open>low\<close> that it lacks added, mapped to
  the empty list.
\<close>

definition fill_missing :: "(string \<times> pyval) list \<Rightarrow> (string \<times> pyval) list" where
  "fill_missing kvs =
     kvs @ map (\<lambda>k. (k, PyList []))
             (filter (\<lambda>k. map_of kvs k = None) [''high'', ''mid'', ''low''])"

text \<open>A record that \<open>_from_dict\<close> accepts, and the tasks made of the accepted records of a list.\<close>

definition record_ok :: "pyval \<Rightarrow> bool" where
  "record_ok d = (case from_dict d of Inl e \<Rightarrow> False | Inr t \<Rightarrow> True)"

definition decoded :: "pyval list \<Rightarrow> Task list" where
  "decoded ds = concat (map (\<lambda>d. case from_dict d of Inl e \<Rightarrow> [] | Inr t \<Rightarrow> [t]) ds)"

text \<open>
  The manager after the tasks \<open>ts\<close>, stored at the addresses \<open>a\<close>, \<open>a + 1\<close>, ..., have
  been appended in this order, each to the list of its priority.
\<close>

fun added :: "ref \<Rightarrow> Task list \<Rightarrow> TaskManager \<Rightarrow> TaskManager" where
  "added a [] m = m"
| "added a (t # ts) m =
     added (Suc a) ts (set_bucket (priority t) (bucket_of (priority t) m @ [a]) m)"

text \<open>
  A value under a key is well formed when it is a list of records that \<open>_from_dict\<close>
  accepts; a document is well formed when it is a dict and the values under those of the
  three keys that it has are.
\<close>

definition records_ok :: "pyval \<Rightarrow> bool" where
  "records_ok v = (case v of PyList ds \<Rightarrow> list_all record_ok ds | _ \<Rightarrow> False)"

definition document_ok :: "(string \<times> pyval) list \<Rightarrow> bool" where
  "document_ok kvs =
     list_all (\<lambda>k. case map_of kvs k of None \<Rightarrow> True | Some v \<Rightarrow> records_ok v)
       [''high'', ''mid'', ''low'']"

text \<open>The records under the keys that a document has, in the order of the three loops.\<close>

definition present_records :: "(string \<times> pyval) list \<Rightarrow> pyval list" where
  "present_records kvs =
     concat (map (\<lambda>k. case map_of kvs k of Some (PyList ds) \<Rightarrow> ds | _ \<Rightarrow> [])
               [''high'', ''mid'', ''low''])"

text \<open>
  \<open>save_tasks\<close>, then \<open>import_tasks\<close> with a new, empty manager, in a process whose
  heap is \<open>h0\<close>.
\<close>

definition save_then_import :: "world \<Rightarrow> Task list \<Rightarrow> world \<times> event list" where
  "save_then_import w h0 =
     import_tasks ((fst (save_tasks True w))\<lparr>heap := h0, lm := TaskManager_init\<rparr>)"

text \<open>\<open>s\<close> is \<open>name\<close> with some of its letters in lower case.\<close>

definition case_variant :: "string \<Rightarrow> string \<Rightarrow> bool" where
  "case_variant s name = list_all2 (\<lambda>c d. c = d \<or> c = lower_char d) s name"

section \<open>Example data\<close>

text \<open>The task of the scenario in the specification, and a completed task of low priority.\<close>

definition report_task :: Task where
  "report_task =
     \<lparr> task_name = ''Write report'', description = PyStr ''Q3 summary'', priority = HIGH,
       conclude_time = PyFloat (Fin 25), is_completed = PyBool False \<rparr>"

definition errand_task :: Task where
  "errand_task =
     \<lparr> task_name = ''Buy milk'', description = PyStr ''2 l'', priority = LOW,
       conclude_time = PyInt 10, is_completed = PyBool True \<rparr>"

definition study_task :: Task where
  "study_task =
     \<lparr> task_name = ''Study'', description = PyStr ''chapter 3'', priority = MID,
       conclude_time = PyInt 20, is_completed = PyBool False \<rparr>"

definition example_world :: world where
  "example_world =
     \<lparr> heap = [report_task, errand_task, study_task],
       lm = \<lparr> task_low = [1], task_mid = [2], task_high = [0] \<rparr>,
       task_file = Absent \<rparr>"

text \<open>A record whose priority is written in mixed case, its fields in another order.\<close>

definition mixed_case_fields :: "(string \<times> pyval) list" where
  "mixed_case_fields =
     [(''_is_completed'', PyBool True), (''conclude_time'', PyFloat (Fin 25)),
      (''priority'', PyStr ''hIgh''), (''description'', PyStr ''Q3 summary''),
      (''task_name'', PyStr ''Write report'')]"

text \<open>A document without the key \<open>mid\<close>.\<close>

definition partial_document :: "(string \<times> pyval) list" where
  "partial_document =
     [(''low'', PyList [to_dict errand_task]), (''high'', PyList [to_dict report_task])]"



section \<open>Properties of the constructor\<close>

lemma py_strip_empty_iff: "py_strip s = [] \<longleftrightarrow> whitespace_only s"
proof -
  have "py_strip s = [] \<longleftrightarrow> dropWhile is_space (rev s) = []"
    unfolding py_strip_def
  proof
    assume "dropWhile is_space (rev (dropWhile is_space (rev s))) = []"
    then have a: "\<forall>x\<in>set (dropWhile is_space (rev s)). is_space x"
      by (simp add: dropWhile_eq_Nil_conv)
    show "dropWhile is_space (rev s) = []"
    proof (rule ccontr)
      assume n: "dropWhile is_space (rev s) \<noteq> []"
      then have "\<not> is_space (hd (dropWhile is_space (rev s)))" by (rule hd_dropWhile)
      moreover have "hd (dropWhile is_space (rev s)) \<in> set (dropWhile is_space (rev s))"
        using n by simp
      ultimately show False using a by blast
    qed
  next
    assume e: "dropWhile is_space (rev s) = []"
    show "dropWhile is_space (rev (dropWhile is_space (rev s))) = []"
      unfolding e by simp
  qed
  then show ?thesis
    by (simp add: dropWhile_eq_Nil_conv whitespace_only_def list_all_iff)
qed

text \<open>
  When the constructor raises, for a name that is a string: the three cases of its
  documentation, except that NaN, which is not a positive number, is accepted.
\<close>

lemma Task_init_raises_iff:
  "(\<exists>e. Task_init (PyStr n) d a c = Inl e) \<longleftrightarrow>
     whitespace_only n \<or> \<not> isinstance_Priority a \<or> \<not> (positive_number c \<or> c = PyFloat NaN)"
  by (auto simp: Task_init_def isinstance_str_def py_strip_empty_iff positive_number_def
      isinstance_int_float_def le_zero_def split: pyval.splits pyfloat.splits)

text \<open>What the constructor returns, and that the task it returns satisfies \<open>task_ok\<close>.\<close>

lemma Task_init_returns:
  assumes "Task_init n d a c = Inr t"
  shows "task_ok t \<and> n = PyStr (task_name t) \<and> description t = d \<and> a = Member (priority t)
       \<and> conclude_time t = c \<and> is_completed t = PyBool False"
  using assms
  by (auto simp: Task_init_def task_ok_def isinstance_str_def isinstance_Priority_def
      split: if_splits pyval.splits pyarg.splits)

text \<open>
  C3 (the constructor raises exactly when the name is blank, the priority is not a member
  or the time is not a strictly positive number). The code accepts NaN: \<open>nan <= 0\<close> is
  false, so the third check does not raise, and a task whose time is NaN is returned,
  although NaN is not a strictly positive number.
\<close>

theorem Task_init_accepts_nan:
  assumes "\<not> whitespace_only n"
  shows "\<not> positive_number (PyFloat NaN) \<and>
         Task_init (PyStr n) d (Member p) (PyFloat NaN) =
           Inr \<lparr> task_name = n, description = d, priority = p,
                 conclude_time = PyFloat NaN, is_completed = PyBool False \<rparr>"
  using assms
  by (simp add: Task_init_def isinstance_str_def py_strip_empty_iff positive_number_def
      isinstance_Priority_def isinstance_int_float_def le_zero_def)

text \<open>The failing input: the name \<open>a\<close>, low priority and the time NaN.\<close>

theorem Task_init_accepts_nan_witness:
  "\<not> whitespace_only ''a''
   \<and> \<not> positive_number (PyFloat NaN)
   \<and> Task_init (PyStr ''a'') (PyStr ''d'') (Member LOW) (PyFloat NaN) =
       Inr \<lparr> task_name = ''a'', description = PyStr ''d'', priority = LOW,
             conclude_time = PyFloat NaN, is_completed = PyBool False \<rparr>"
proof -
  have h: "\<not> whitespace_only ''a''"
    by (simp add: whitespace_only_def is_space_def)
  show ?thesis
    using Task_init_accepts_nan [OF h, of "PyStr ''d''" LOW] h by blast
qed

section \<open>Properties of \<open>conclude_task\<close>\<close>

lemma conclude_task_bool:
  "conclude_task (t\<lparr>is_completed := PyBool b\<rparr>) =
     (t\<lparr>is_completed := PyBool True\<rparr>,
      if b then AlreadyCompleted (task_name t) else Completed (task_name t))"
  by (cases b) (simp_all add: conclude_task_def truthy_def)

lemma conclude_times_done:
  "is_completed t = PyBool True \<Longrightarrow>
     conclude_times n t = (t, replicate n (AlreadyCompleted (task_name t)))"
  by (induction n) (simp_all add: conclude_task_def truthy_def)

text \<open>
  C5: for a task whose completion flag is a boolean, the flag is \<open>True\<close> after one call of
  \<open>conclude_task\<close>, and nothing else has changed; the first call prints the confirmation
  only if the flag was \<open>False\<close>; a second call returns the object as it is and prints that
  the task is already completed; and however often the method is called in a row, the
  confirmation is printed at most once.
\<close>

theorem conclude_task_idempotent:
  assumes "is_completed t = PyBool b"
  shows "is_completed (fst (conclude_task t)) = PyBool True
       \<and> fst (conclude_task t) = t\<lparr>is_completed := PyBool True\<rparr>
       \<and> snd (conclude_task t) =
           (if b then AlreadyCompleted (task_name t) else Completed (task_name t))
       \<and> conclude_task (fst (conclude_task t)) =
           (fst (conclude_task t), AlreadyCompleted (task_name t))
       \<and> length (filter (\<lambda>e. e = Completed (task_name t)) (snd (conclude_times n t))) \<le> 1"
proof -
  let ?t1 = "t\<lparr>is_completed := PyBool True\<rparr>"
  have t: "t\<lparr>is_completed := PyBool b\<rparr> = t"
    using assms by (cases t) simp
  have a: "conclude_task t =
             (?t1, if b then AlreadyCompleted (task_name t) else Completed (task_name t))"
    using conclude_task_bool [where t = t and b = b] by (simp only: t)
  have b: "conclude_task ?t1 = (?t1, AlreadyCompleted (task_name t))"
    using conclude_task_bool [where t = t and b = True] by simp
  have c: "length (filter (\<lambda>e. e = Completed (task_name t)) (snd (conclude_times n t))) \<le> 1"
  proof (cases n)
    case 0
    then show ?thesis by simp
  next
    case (Suc k)
    have "conclude_times k ?t1 = (?t1, replicate k (AlreadyCompleted (task_name t)))"
      using conclude_times_done [where t = ?t1 and n = k] by simp
    then show ?thesis unfolding Suc by (simp add: a)
  qed
  show ?thesis unfolding a using b c by simp
qed

text \<open>The theorem at the task of the scenario, not yet completed, called three times.\<close>

theorem conclude_task_idempotent_witness:
  "is_completed report_task = PyBool False
   \<and> is_completed (fst (conclude_task report_task)) = PyBool True
   \<and> fst (conclude_task report_task) = report_task\<lparr>is_completed := PyBool True\<rparr>
   \<and> snd (conclude_task report_task) = Completed ''Write report''
   \<and> conclude_task (fst (conclude_task report_task)) =
       (fst (conclude_task report_task), AlreadyCompleted ''Write report'')
   \<and> length (filter (\<lambda>e. e = Completed ''Write report'')
               (snd (conclude_times 3 report_task))) \<le> 1"
proof -
  have h: "is_completed report_task = PyBool False"
    by (simp add: report_task_def)
  have n: "task_name report_task = ''Write report''"
    by (simp add: report_task_def)
  show ?thesis
    using conclude_task_idempotent [OF h, of 3] h unfolding n if_False by blast
qed

section \<open>Properties of \<open>list_manager\<close>\<close>

text \<open>The lookup by lower-case name finds the list of the priority; it never fails.\<close>

lemma list_manager_eq:
  "list_manager h task operation m =
     (let p = priority (h ! task); t = h ! task in
      if operation = DELETE then
        if task \<in> set (bucket_of p m) then
          Inr (set_bucket p (remove1 task (bucket_of p m)) m, [Removed (task_name t) p])
        else Inr (m, [NotFound (task_name t) p])
      else Inr (set_bucket p (bucket_of p m @ [task]) m, []))"
  by (cases "priority (h ! task)")
     (simp_all add: list_manager_def py_lower_def lower_char_def lists_by_key_def store_list_def
        bucket_of_def set_bucket_def Let_def)

lemma bucket_of_set_bucket:
  "bucket_of q (set_bucket p xs m) = (if q = p then xs else bucket_of q m)"
  by (cases p; cases q) (simp_all add: bucket_of_def set_bucket_def)

lemma list_manager_total: "\<exists>m' evs. list_manager h task operation m = Inr (m', evs)"
  by (simp add: list_manager_eq Let_def)

lemma list_manager_add:
  "list_manager h task ADD m =
     Inr (set_bucket (priority (h ! task)) (bucket_of (priority (h ! task)) m @ [task]) m, [])"
  by (simp add: list_manager_eq Let_def)

lemma buckets_ok_iff:
  "buckets_ok h m \<longleftrightarrow> (\<forall>p. \<forall>r\<in>set (bucket_of p m). r < length h \<and> priority (h ! r) = p)"
proof -
  have "(\<forall>p. P p) \<longleftrightarrow> P LOW \<and> P MID \<and> P HIGH" for P
    by (metis Priority.exhaust)
  then show ?thesis
    by (simp add: buckets_ok_def bucket_ok_def list_all_iff bucket_of_def)
qed

lemma list_manager_bucket_subset:
  assumes "list_manager h task operation m = Inr (m', evs)"
  shows "set (bucket_of q m') \<subseteq>
           set (bucket_of q m) \<union> (if q = priority (h ! task) then {task} else {})"
proof -
  let ?p = "priority (h ! task)"
  consider (del) "m' = set_bucket ?p (remove1 task (bucket_of ?p m)) m"
    | (same) "m' = m"
    | (add) "m' = set_bucket ?p (bucket_of ?p m @ [task]) m"
    using assms by (simp add: list_manager_eq Let_def split: if_splits)
  then show ?thesis
  proof cases
    case del
    have "set (remove1 task (bucket_of ?p m)) \<subseteq> set (bucket_of ?p m)"
      by (rule set_remove1_subset)
    then show ?thesis unfolding del by (auto simp: bucket_of_set_bucket)
  next
    case same
    then show ?thesis by auto
  next
    case add
    show ?thesis unfolding add by (auto simp: bucket_of_set_bucket)
  qed
qed

lemma list_manager_preserves:
  assumes "task < length h" and "buckets_ok h m"
    and "list_manager h task operation m = Inr (m', evs)"
  shows "buckets_ok h m'"
  unfolding buckets_ok_iff
proof (intro allI ballI)
  fix q r
  assume "r \<in> set (bucket_of q m')"
  then have "r \<in> set (bucket_of q m) \<or> (q = priority (h ! task) \<and> r = task)"
    using list_manager_bucket_subset [OF assms(3), of q] by (auto split: if_splits)
  then show "r < length h \<and> priority (h ! r) = q"
    using assms(1,2) unfolding buckets_ok_iff by blast
qed

lemma run_ops_preserves:
  "list_all (\<lambda>x. fst x < length h) ops \<Longrightarrow> buckets_ok h m \<Longrightarrow>
     \<exists>m'. run_ops h ops m = Inr m' \<and> buckets_ok h m'"
proof (induction ops arbitrary: m)
  case Nil
  then show ?case by simp
next
  case (Cons x ops)
  obtain task operation where x: "x = (task, operation)" by (cases x)
  obtain m1 evs where s: "list_manager h task operation m = Inr (m1, evs)"
    using list_manager_total by blast
  have "buckets_ok h m1"
    using list_manager_preserves [OF _ Cons.prems(2) s] Cons.prems(1) x by simp
  then obtain m' where "run_ops h ops m1 = Inr m'" "buckets_ok h m'"
    using Cons.IH Cons.prems(1) by auto
  then show ?case using x s by simp
qed

lemma buckets_ok_disjoint: "buckets_ok h m \<Longrightarrow> buckets_disjoint m"
  by (auto simp: buckets_ok_def bucket_ok_def buckets_disjoint_def list_all_iff)

text \<open>
  C4: whatever sequence of additions and removals of existing task objects is run on a new
  manager, no call fails, every address in the list of a priority is that of a task of that
  priority, and no address occurs in two lists.
\<close>

theorem bucket_invariant:
  assumes "list_all (\<lambda>x. fst x < length h) ops"
  shows "\<exists>m. run_ops h ops TaskManager_init = Inr m \<and> buckets_ok h m \<and> buckets_disjoint m"
proof -
  have "buckets_ok h TaskManager_init"
    by (simp add: buckets_ok_def bucket_ok_def TaskManager_init_def)
  then show ?thesis
    using run_ops_preserves [OF assms] buckets_ok_disjoint by blast
qed

text \<open>
  The theorem at two tasks, added, the first added again and removed once: the first is
  left in the list of high priority, the second in the list of low priority.
\<close>

theorem bucket_invariant_witness:
  "list_all (\<lambda>x. fst x < length [report_task, errand_task])
     [(0, ADD), (1, ADD), (0, ADD), (0, DELETE)]
   \<and> run_ops [report_task, errand_task] [(0, ADD), (1, ADD), (0, ADD), (0, DELETE)]
        TaskManager_init
       = Inr \<lparr> task_low = [1], task_mid = [], task_high = [0] \<rparr>
   \<and> (\<exists>m. run_ops [report_task, errand_task] [(0, ADD), (1, ADD), (0, ADD), (0, DELETE)]
              TaskManager_init = Inr m
          \<and> buckets_ok [report_task, errand_task] m \<and> buckets_disjoint m)"
proof -
  have h: "list_all (\<lambda>x. fst x < length [report_task, errand_task])
             [(0, ADD), (1, ADD), (0, ADD), (0, DELETE)]"
    by simp
  have r: "run_ops [report_task, errand_task] [(0, ADD), (1, ADD), (0, ADD), (0, DELETE)]
             TaskManager_init
           = Inr \<lparr> task_low = [1], task_mid = [], task_high = [0] \<rparr>"
    by (simp add: list_manager_eq Let_def report_task_def errand_task_def TaskManager_init_def
        bucket_of_def set_bucket_def)
  show ?thesis
    using bucket_invariant [OF h] h r by blast
qed

text \<open>
  C7: removing a task object whose address is not in the list of its priority returns
  normally, prints that the task was not found, and leaves the manager as it was.
\<close>

theorem remove_absent:
  assumes "task < length h"
    and "task \<notin> set (bucket_of (priority (h ! task)) m)"
  shows "list_manager h task DELETE m =
           Inr (m, [NotFound (task_name (h ! task)) (priority (h ! task))])"
  using assms by (simp add: list_manager_eq Let_def)

text \<open>
  The theorem at the task of the scenario, whose address is in the list of low priority
  by mistake but not in the list of high priority.
\<close>

theorem remove_absent_witness:
  "(0::nat) < length [report_task]
   \<and> 0 \<notin> set (bucket_of (priority ([report_task] ! 0))
                \<lparr> task_low = [0], task_mid = [], task_high = [] \<rparr>)
   \<and> list_manager [report_task] 0 DELETE \<lparr> task_low = [0], task_mid = [], task_high = [] \<rparr>
       = Inr (\<lparr> task_low = [0], task_mid = [], task_high = [] \<rparr>,
              [NotFound ''Write report'' HIGH])"
proof -
  have a: "(0::nat) < length [report_task]"
    by simp
  have b: "0 \<notin> set (bucket_of (priority ([report_task] ! 0))
                      \<lparr> task_low = [0], task_mid = [], task_high = [] \<rparr>)"
    by (simp add: report_task_def bucket_of_def)
  have n: "task_name ([report_task] ! 0) = ''Write report''"
    "priority ([report_task] ! 0) = HIGH"
    by (simp_all add: report_task_def)
  show ?thesis
    using remove_absent [OF a b] a b unfolding n by blast
qed

text \<open>
  C6, as the code has it: removing a task object whose address is in the list of its
  priority returns normally, prints that the task was removed, deletes the first
  occurrence of that address from the list and leaves the other two lists as they were.
  The object is found by identity, not by the values of its fields.
\<close>

theorem remove_same_instance:
  assumes "task < length h"
    and "task \<in> set (bucket_of (priority (h ! task)) m)"
  shows "\<exists>m'. list_manager h task DELETE m =
                 Inr (m', [Removed (task_name (h ! task)) (priority (h ! task))])
              \<and> bucket_of (priority (h ! task)) m' =
                  remove1 task (bucket_of (priority (h ! task)) m)
              \<and> (\<forall>q. q \<noteq> priority (h ! task) \<longrightarrow> bucket_of q m' = bucket_of q m)"
  using assms by (simp add: list_manager_eq bucket_of_set_bucket Let_def)

text \<open>
  The theorem at two objects with the same fields, both in the list of high priority, the
  second before the first and the first twice: removing the first deletes its first
  occurrence, and the second object, equal in all fields, stays.
\<close>

theorem remove_same_instance_witness:
  "(0::nat) < length [report_task, report_task]
   \<and> 0 \<in> set (bucket_of (priority ([report_task, report_task] ! 0))
                \<lparr> task_low = [], task_mid = [], task_high = [1, 0, 0] \<rparr>)
   \<and> (\<exists>m'. list_manager [report_task, report_task] 0 DELETE
               \<lparr> task_low = [], task_mid = [], task_high = [1, 0, 0] \<rparr>
               = Inr (m', [Removed ''Write report'' HIGH])
          \<and> bucket_of HIGH m' = [1, 0]
          \<and> (\<forall>q. q \<noteq> HIGH \<longrightarrow>
                bucket_of q m' =
                bucket_of q \<lparr> task_low = [], task_mid = [], task_high = [1, 0, 0] \<rparr>))"
proof -
  have a: "(0::nat) < length [report_task, report_task]"
    by simp
  have b: "0 \<in> set (bucket_of (priority ([report_task, report_task] ! 0))
                      \<lparr> task_low = [], task_mid = [], task_high = [1, 0, 0] \<rparr>)"
    by (simp add: report_task_def bucket_of_def)
  have n: "task_name ([report_task, report_task] ! 0) = ''Write report''"
    "priority ([report_task, report_task] ! 0) = HIGH"
    by (simp_all add: report_task_def)
  have r: "remove1 0 (bucket_of HIGH \<lparr> task_low = [], task_mid = [], task_high = [1, 0, 0] \<rparr>)
             = [1, 0::nat]"
    by (simp add: bucket_of_def)
  show ?thesis
    using remove_same_instance [OF a b] a b unfolding n r by blast
qed

text \<open>
  C6 as stated fails: the list of high priority holds the object at address 0; the object
  at address 1 has the same fields, yet removing it finds nothing and changes nothing.
\<close>

theorem remove_equal_copy_not_found:
  "[report_task, report_task] ! 1 = [report_task, report_task] ! 0
   \<and> list_manager [report_task, report_task] 1 DELETE
        \<lparr> task_low = [], task_mid = [], task_high = [0] \<rparr>
       = Inr (\<lparr> task_low = [], task_mid = [], task_high = [0] \<rparr>,
              [NotFound ''Write report'' HIGH])"
  by (simp add: list_manager_eq Let_def report_task_def bucket_of_def)

section \<open>Properties of \<open>start_pomodoro\<close>\<close>

lemma timer_calls_append: "timer_calls (xs @ ys) = timer_calls xs @ timer_calls ys"
  by (simp add: timer_calls_def)

lemma timer_calls_Nil: "timer_calls [] = []"
  by (simp add: timer_calls_def)

lemma timer_calls_Cons:
  "timer_calls (e # es) = (case e of Timer m d \<Rightarrow> [(m, d)] | _ \<Rightarrow> []) @ timer_calls es"
  by (simp add: timer_calls_def)

lemma timer_calls_prompt: "timer_calls (fst (snd (completion_prompt answers self))) = []"
proof (induction answers)
  case Nil
  then show ?case by (simp add: timer_calls_def)
next
  case (Cons a answers)
  show ?case
  proof (cases a)
    case None
    obtain t evs r where c: "completion_prompt answers self = (t, evs, r)"
      by (cases "completion_prompt answers self") auto
    then have "timer_calls evs = []" using Cons.IH by simp
    then show ?thesis using None c by (simp add: timer_calls_def)
  next
    case (Some k)
    then show ?thesis
      by (simp add: timer_calls_def conclude_task_def)
  qed
qed

lemma timer_calls_cycles:
  "timer_calls (pomodoro_cycles self b msg n i) =
     (if i < n then
        concat (replicate (nat (n - i) - 1) [(work_label self, conclude_time self), (msg, b)])
        @ [(work_label self, conclude_time self)]
      else [])"
proof (induction self b msg n i rule: pomodoro_cycles.induct)
  case (1 self b msg n i)
  let ?W = "(work_label self, conclude_time self)"
  let ?B = "(msg, b)"
  show ?case
  proof (cases "i < n")
    case False
    then have "pomodoro_cycles self b msg n i = []"
      by (subst pomodoro_cycles.simps) simp
    then show ?thesis using False by (simp add: timer_calls_def)
  next
    case True
    note lt = True
    show ?thesis
    proof (cases "i < n - 1")
      case True
      have u: "pomodoro_cycles self b msg n i =
                 [CycleHeader (i + 1) n, Timer (work_label self) (conclude_time self),
                  Timer msg b] @ pomodoro_cycles self b msg n (i + 1)"
        using lt True by (subst pomodoro_cycles.simps) simp
      have ih: "timer_calls (pomodoro_cycles self b msg n (i + 1)) =
                  concat (replicate (nat (n - (i + 1)) - 1) [?W, ?B]) @ [?W]"
        using "1.IH" [OF lt] True by simp
      have r: "nat (n - i) - 1 = Suc (nat (n - (i + 1)) - 1)"
        using True by simp
      have "timer_calls (pomodoro_cycles self b msg n i) =
              [?W, ?B] @ timer_calls (pomodoro_cycles self b msg n (i + 1))"
        unfolding u timer_calls_append by (simp add: timer_calls_def)
      also have "\<dots> = concat (replicate (nat (n - i) - 1) [?W, ?B]) @ [?W]"
        unfolding ih r by simp
      finally show ?thesis using lt by simp
    next
      case False
      have u: "pomodoro_cycles self b msg n i =
                 [CycleHeader (i + 1) n, Timer (work_label self) (conclude_time self)]
                 @ pomodoro_cycles self b msg n (i + 1)"
        using lt False by (subst pomodoro_cycles.simps) simp
      have ih: "timer_calls (pomodoro_cycles self b msg n (i + 1)) = []"
        using "1.IH" [OF lt] False by simp
      have e: "nat (n - i) - 1 = 0" using lt False by simp
      have "timer_calls (pomodoro_cycles self b msg n i) = [?W]"
        unfolding u timer_calls_append ih by (simp add: timer_calls_def)
      then show ?thesis using lt unfolding e by simp
    qed
  qed
qed

text \<open>
  C9: for a number of cycles of at least one, the timers that \<open>start_pomodoro\<close> starts
  are, in this order, a work timer of the task's time followed by a break timer of the
  break time, once for every cycle but the last, and then one more work timer: as many
  work intervals as cycles, one break interval fewer, and none after the last work
  interval.
\<close>

theorem pomodoro_schedule:
  assumes "1 \<le> n"
  shows "timer_calls (fst (snd (start_pomodoro t b msg n answers))) =
           concat (replicate (nat n - 1) [(work_label t, conclude_time t), (msg, b)])
           @ [(work_label t, conclude_time t)]"
proof -
  obtain t' evs r where c: "completion_prompt answers t = (t', evs, r)"
    by (cases "completion_prompt answers t") auto
  then have p: "timer_calls evs = []"
    using timer_calls_prompt [of answers t] by simp
  have "timer_calls (fst (snd (start_pomodoro t b msg n answers))) =
          timer_calls (pomodoro_cycles t b msg n 0)"
    unfolding start_pomodoro_def c
    by (simp add: timer_calls_append timer_calls_Cons timer_calls_Nil p)
  then show ?thesis
    using assms by (simp add: timer_calls_cycles)
qed

text \<open>
  The scenario of the specification: three cycles, breaks of 5 minutes, a task of 20
  minutes (the user first types an invalid answer, then 1).
\<close>

theorem pomodoro_schedule_witness:
  "(1::int) \<le> 3
   \<and> timer_calls (fst (snd (start_pomodoro study_task (PyInt 5) ''Break'' 3 [None, Some 1]))) =
       [(''Work interval for '' @ [CHR 0x27] @ ''Study'' @ [CHR 0x27], PyInt 20), (''Break'', PyInt 5),
        (''Work interval for '' @ [CHR 0x27] @ ''Study'' @ [CHR 0x27], PyInt 20), (''Break'', PyInt 5),
        (''Work interval for '' @ [CHR 0x27] @ ''Study'' @ [CHR 0x27], PyInt 20)]"
proof -
  have h: "(1::int) \<le> 3" by simp
  have w: "work_label study_task = ''Work interval for '' @ [CHR 0x27] @ ''Study'' @ [CHR 0x27]"
    "conclude_time study_task = PyInt 20"
    by (simp_all add: work_label_def study_task_def)
  have r: "nat 3 - 1 = Suc (Suc 0)" by simp
  show ?thesis
    using pomodoro_schedule [OF h, of study_task "PyInt 5" "''Break''" "[None, Some 1]"] h
    unfolding w r by simp
qed

section \<open>Properties of the records\<close>

lemma py_upper_name: "py_upper (Priority_name p) = Priority_name p"
  by (cases p) (simp_all add: py_upper_def upper_char_def)

lemma Priority_getitem_name: "Priority_getitem (Priority_name p) = Inr p"
  by (cases p) (simp_all add: Priority_getitem_def)

lemma case_variant_upper:
  assumes "case_variant s (Priority_name p)"
  shows "py_upper s = Priority_name p"
proof (cases p)
  case LOW
  then show ?thesis using assms
    by (auto simp: case_variant_def list_all2_Cons2 py_upper_def upper_char_def lower_char_def)
next
  case MID
  then show ?thesis using assms
    by (auto simp: case_variant_def list_all2_Cons2 py_upper_def upper_char_def lower_char_def)
next
  case HIGH
  then show ?thesis using assms
    by (auto simp: case_variant_def list_all2_Cons2 py_upper_def upper_char_def lower_char_def)
qed

lemma from_dict_fields:
  assumes "map_of kvs ''task_name'' = Some (PyStr n)"
    and "map_of kvs ''description'' = Some d"
    and "map_of kvs ''priority'' = Some (PyStr s)"
    and "py_upper s = Priority_name p"
    and "map_of kvs ''conclude_time'' = Some c"
    and "map_of kvs ''_is_completed'' = Some f"
    and "py_strip n \<noteq> []"
    and "isinstance_int_float c" and "\<not> le_zero c"
  shows "from_dict (PyDict kvs) =
           Inr \<lparr> task_name = n, description = d, priority = p, conclude_time = c,
                 is_completed = f \<rparr>"
  using assms
  by (simp add: from_dict_def py_getitem_def py_upper_method_def Priority_getitem_name
      Task_init_def isinstance_str_def isinstance_Priority_def)

lemma from_dict_to_dict:
  assumes "task_ok t"
  shows "from_dict (to_dict t) = Inr t"
proof -
  have "from_dict (to_dict t) =
          Inr \<lparr> task_name = task_name t, description = description t, priority = priority t,
                conclude_time = conclude_time t, is_completed = is_completed t \<rparr>"
    unfolding to_dict_def
    by (rule from_dict_fields [where s = "Priority_name (priority t)"])
       (use assms in \<open>simp_all add: py_upper_name task_ok_def\<close>)
  then show ?thesis by simp
qed

lemma task_ok_examples: "task_ok report_task" "task_ok errand_task" "task_ok study_task"
  by (simp_all add: task_ok_def report_task_def errand_task_def study_task_def py_strip_def
      is_space_def isinstance_int_float_def le_zero_def)

text \<open>Every task that \<open>_from_dict\<close> returns, and every task after \<open>conclude_task\<close>, is accepted.\<close>

lemma from_dict_task_ok:
  assumes "from_dict d = Inr t"
  shows "task_ok t"
proof -
  from assms obtain a1 a2 p a4 c t0 where i: "Task_init a1 a2 (Member p) a4 = Inr t0"
    and t: "t = t0\<lparr>is_completed := c\<rparr>"
    by (auto simp: from_dict_def split: sum.splits)
  have "task_ok t0"
    using Task_init_returns [OF i] by blast
  then show ?thesis
    unfolding t by (simp add: task_ok_def)
qed

lemma conclude_task_task_ok: "task_ok t \<Longrightarrow> task_ok (fst (conclude_task t))"
  by (simp add: conclude_task_def task_ok_def)

text \<open>
  C10: a record whose priority is the name of a member with any of its letters in lower
  case, and whose other fields the constructor accepts, is made into a task of that
  member's priority, with the fields of the record; and the record that \<open>_to_dict\<close> makes
  of this task carries the name of the member, which is in upper case.
\<close>

theorem from_dict_case_insensitive:
  assumes "case_variant s (Priority_name p)"
    and "map_of kvs ''priority'' = Some (PyStr s)"
    and "map_of kvs ''task_name'' = Some (PyStr n)" and "py_strip n \<noteq> []"
    and "map_of kvs ''description'' = Some d"
    and "map_of kvs ''conclude_time'' = Some c"
    and "isinstance_int_float c" and "\<not> le_zero c"
    and "map_of kvs ''_is_completed'' = Some f"
  shows "from_dict (PyDict kvs) =
           Inr \<lparr> task_name = n, description = d, priority = p, conclude_time = c,
                 is_completed = f \<rparr>
       \<and> py_getitem (to_dict \<lparr> task_name = n, description = d, priority = p,
                              conclude_time = c, is_completed = f \<rparr>) ''priority''
           = Inr (PyStr (Priority_name p))
       \<and> py_upper (Priority_name p) = Priority_name p"
proof -
  have u: "py_upper s = Priority_name p"
    using assms(1) by (rule case_variant_upper)
  have "from_dict (PyDict kvs) =
           Inr \<lparr> task_name = n, description = d, priority = p, conclude_time = c,
                 is_completed = f \<rparr>"
    using assms(3,5,2) u assms(6,9,4,7,8) by (rule from_dict_fields)
  then show ?thesis
    by (simp add: py_upper_name to_dict_def py_getitem_def)
qed

text \<open>
  The theorem at the record with the priority \<open>hIgh\<close>.
\<close>

theorem from_dict_case_insensitive_witness:
  "case_variant ''hIgh'' (Priority_name HIGH)
   \<and> from_dict (PyDict mixed_case_fields) =
       Inr \<lparr> task_name = ''Write report'', description = PyStr ''Q3 summary'', priority = HIGH,
             conclude_time = PyFloat (Fin 25), is_completed = PyBool True \<rparr>
   \<and> py_getitem (to_dict \<lparr> task_name = ''Write report'', description = PyStr ''Q3 summary'',
                          priority = HIGH, conclude_time = PyFloat (Fin 25),
                          is_completed = PyBool True \<rparr>) ''priority''
       = Inr (PyStr ''HIGH'')"
proof -
  have c: "case_variant ''hIgh'' (Priority_name HIGH)"
    by (simp add: case_variant_def lower_char_def)
  have f: "map_of mixed_case_fields ''priority'' = Some (PyStr ''hIgh'')"
    "map_of mixed_case_fields ''task_name'' = Some (PyStr ''Write report'')"
    "map_of mixed_case_fields ''description'' = Some (PyStr ''Q3 summary'')"
    "map_of mixed_case_fields ''conclude_time'' = Some (PyFloat (Fin 25))"
    "map_of mixed_case_fields ''_is_completed'' = Some (PyBool True)"
    by (simp_all add: mixed_case_fields_def)
  have n: "py_strip ''Write report'' \<noteq> []"
    by (simp add: py_strip_def is_space_def)
  have t: "isinstance_int_float (PyFloat (Fin 25))" "\<not> le_zero (PyFloat (Fin 25))"
    by (simp_all add: isinstance_int_float_def le_zero_def)
  have e: "Priority_name HIGH = ''HIGH''" by simp
  show ?thesis
    using from_dict_case_insensitive [OF c f(1) f(2) n f(3) f(4) t f(5)] c unfolding e by blast
qed

section \<open>Properties of \<open>import_tasks\<close>\<close>

lemma import_loop_append:
  "import_loop (xs @ ys) s =
     (case import_loop xs s of (s', None) \<Rightarrow> import_loop ys s' | (s', Some e) \<Rightarrow> (s', Some e))"
proof (induction xs arbitrary: s)
  case Nil
  then show ?case by simp
next
  case (Cons x xs)
  obtain h m where s: "s = (h, m)" by (cases s)
  show ?case
    unfolding s using Cons.IH
    by (simp add: list_manager_add split: sum.splits)
qed

lemma decoded_Cons:
  "decoded (d # ds) = (case from_dict d of Inl e \<Rightarrow> [] | Inr t \<Rightarrow> [t]) @ decoded ds"
  by (simp add: decoded_def)

lemma decoded_Nil: "decoded [] = []"
  by (simp add: decoded_def)

lemma import_loop_ok:
  "list_all record_ok ds \<Longrightarrow>
     import_loop ds (h, m) = ((h @ decoded ds, added (length h) (decoded ds) m), None)"
proof (induction ds arbitrary: h m)
  case Nil
  then show ?case by (simp add: decoded_Nil)
next
  case (Cons d ds)
  from Cons.prems obtain t where t: "from_dict d = Inr t"
    by (auto simp: record_ok_def split: sum.splits)
  have r: "list_all record_ok ds" using Cons.prems by simp
  show ?case
    using Cons.IH [OF r, of "h @ [t]"]
    by (simp add: t decoded_Cons list_manager_add)
qed


lemma import_data_lists:
  assumes "py_get (PyDict kvs) ''high'' (PyList []) = Inr (PyList hs)"
    and "py_get (PyDict kvs) ''mid'' (PyList []) = Inr (PyList ms)"
    and "py_get (PyDict kvs) ''low'' (PyList []) = Inr (PyList ls)"
  shows "import_data (PyDict kvs) s = import_loop (hs @ ms @ ls) s"
proof -
  have k: "import_key (PyDict kvs) ''high'' s' = import_loop hs s'"
    "import_key (PyDict kvs) ''mid'' s' = import_loop ms s'"
    "import_key (PyDict kvs) ''low'' s' = import_loop ls s'" for s'
    using assms by (simp_all add: import_key_def py_iter_def)
  show ?thesis
    unfolding import_data_def k import_loop_append
    by (simp split: prod.splits option.splits)
qed

lemma py_get_dict:
  "py_get (PyDict kvs) k dflt = Inr (case map_of kvs k of None \<Rightarrow> dflt | Some v \<Rightarrow> v)"
  by (simp add: py_get_def split: option.splits)

lemma map_of_fill_missing:
  assumes "k \<in> set [''high'', ''mid'', ''low'']"
  shows "map_of (fill_missing kvs) k =
           Some (case map_of kvs k of None \<Rightarrow> PyList [] | Some v \<Rightarrow> v)"
  using assms
  by (auto simp: fill_missing_def map_add_def split: option.splits)

lemma py_get_fill_missing:
  assumes "k \<in> set [''high'', ''mid'', ''low'']"
  shows "py_get (PyDict (fill_missing kvs)) k (PyList []) = py_get (PyDict kvs) k (PyList [])"
  by (simp add: py_get_dict map_of_fill_missing [OF assms])

lemma import_data_fill_missing:
  "import_data (PyDict (fill_missing kvs)) s = import_data (PyDict kvs) s"
proof -
  have k: "import_key (PyDict (fill_missing kvs)) ''high'' s' = import_key (PyDict kvs) ''high'' s'"
    "import_key (PyDict (fill_missing kvs)) ''mid'' s' = import_key (PyDict kvs) ''mid'' s'"
    "import_key (PyDict (fill_missing kvs)) ''low'' s' = import_key (PyDict kvs) ''low'' s'"
    for s'
    by (simp_all add: import_key_def py_get_fill_missing)
  show ?thesis unfolding import_data_def k by (rule refl)
qed

lemma document_ok_get:
  assumes "document_ok kvs" and "k \<in> set [''high'', ''mid'', ''low'']"
  shows "py_get (PyDict kvs) k (PyList []) =
           Inr (PyList (case map_of kvs k of Some (PyList ds) \<Rightarrow> ds | _ \<Rightarrow> []))
       \<and> list_all record_ok (case map_of kvs k of Some (PyList ds) \<Rightarrow> ds | _ \<Rightarrow> [])"
  using assms
  by (auto simp: document_ok_def records_ok_def py_get_dict split: option.splits pyval.splits)

text \<open>
  C8: for a document whose values under those of the keys \<open>high\<close>, \<open>mid\<close>, \<open>low\<close> that
  it has are lists of records that \<open>_from_dict\<close> accepts, whichever of the keys are
  absent, the import raises nothing and adds exactly the tasks of the records under the
  keys that are present, in the order \<open>high\<close>, \<open>mid\<close>, \<open>low\<close>; it does what it does
  on the document with every absent key added and mapped to the empty list.
\<close>

theorem import_missing_keys:
  assumes "document_ok kvs"
  shows "import_data (PyDict kvs) (h, m) =
           ((h @ decoded (present_records kvs),
             added (length h) (decoded (present_records kvs)) m), None)
       \<and> import_data (PyDict kvs) (h, m) = import_data (PyDict (fill_missing kvs)) (h, m)
       \<and> list_all (\<lambda>k. map_of (fill_missing kvs) k =
                          Some (case map_of kvs k of None \<Rightarrow> PyList [] | Some v \<Rightarrow> v))
           [''high'', ''mid'', ''low'']"
proof -
  let ?r = "\<lambda>k. case map_of kvs k of Some (PyList ds) \<Rightarrow> ds | _ \<Rightarrow> []"
  have g: "py_get (PyDict kvs) ''high'' (PyList []) = Inr (PyList (?r ''high''))"
    "py_get (PyDict kvs) ''mid'' (PyList []) = Inr (PyList (?r ''mid''))"
    "py_get (PyDict kvs) ''low'' (PyList []) = Inr (PyList (?r ''low''))"
    using document_ok_get [OF assms] by simp_all
  have ok: "list_all record_ok (?r ''high'' @ ?r ''mid'' @ ?r ''low'')"
    using document_ok_get [OF assms] by simp
  have p: "present_records kvs = ?r ''high'' @ ?r ''mid'' @ ?r ''low''"
    by (simp add: present_records_def)
  have "import_data (PyDict kvs) (h, m) = import_loop (present_records kvs) (h, m)"
    unfolding p by (rule import_data_lists [OF g])
  also have "\<dots> = ((h @ decoded (present_records kvs),
                     added (length h) (decoded (present_records kvs)) m), None)"
    using ok unfolding p by (rule import_loop_ok)
  finally show ?thesis
    by (simp add: import_data_fill_missing map_of_fill_missing)
qed

text \<open>
  The theorem at a document that has \<open>low\<close> and \<open>high\<close> but not \<open>mid\<close>.
\<close>

theorem import_missing_keys_witness:
  "document_ok partial_document
   \<and> map_of partial_document ''mid'' = None
   \<and> import_data (PyDict partial_document) ([], TaskManager_init) =
       (([report_task, errand_task], \<lparr> task_low = [1], task_mid = [], task_high = [0] \<rparr>), None)
   \<and> import_data (PyDict partial_document) ([], TaskManager_init) =
       import_data (PyDict (fill_missing partial_document)) ([], TaskManager_init)
   \<and> fill_missing partial_document = partial_document @ [(''mid'', PyList [])]"
proof -
  have r: "record_ok (to_dict report_task)" "record_ok (to_dict errand_task)"
    by (simp_all add: record_ok_def from_dict_to_dict task_ok_examples)
  have d: "document_ok partial_document"
    by (simp add: document_ok_def records_ok_def partial_document_def r)
  have k: "map_of partial_document ''mid'' = None"
    by (simp add: partial_document_def)
  have p: "present_records partial_document = [to_dict report_task, to_dict errand_task]"
    by (simp add: present_records_def partial_document_def)
  have c: "decoded (present_records partial_document) = [report_task, errand_task]"
    unfolding p by (simp add: decoded_def from_dict_to_dict task_ok_examples)
  have q: "priority report_task = HIGH" "priority errand_task = LOW"
    by (simp_all add: report_task_def errand_task_def)
  have a: "added (length ([] :: Task list)) [report_task, errand_task] TaskManager_init =
             \<lparr> task_low = [1], task_mid = [], task_high = [0] \<rparr>"
    by (simp add: q TaskManager_init_def set_bucket_def bucket_of_def)
  have f: "fill_missing partial_document = partial_document @ [(''mid'', PyList [])]"
    by (simp add: fill_missing_def partial_document_def)
  show ?thesis
    using import_missing_keys [OF d, of "[]" TaskManager_init] d k f unfolding c a append_Nil by blast
qed






section \<open>Saving and importing again\<close>

lemma set_bucket_twice: "set_bucket p xs (set_bucket p ys m) = set_bucket p xs m"
  by (cases p) (simp_all add: set_bucket_def)

lemma added_same_priority:
  "list_all (\<lambda>t. priority t = p) ts \<Longrightarrow>
     added a ts m = set_bucket p (bucket_of p m @ [a ..< a + length ts]) m"
proof (induction ts arbitrary: a m)
  case Nil
  then show ?case by (cases p) (simp_all add: set_bucket_def bucket_of_def)
next
  case (Cons t ts)
  have t: "priority t = p" and r: "list_all (\<lambda>t. priority t = p) ts"
    using Cons.prems by simp_all
  have u: "[a ..< a + length (t # ts)] = a # [Suc a ..< Suc a + length ts]"
    by (subst upt_rec) simp
  show ?case
    unfolding u
    by (simp add: t Cons.IH [OF r] bucket_of_set_bucket set_bucket_twice)
qed

lemma added_append: "added a (xs @ ys) m = added (a + length xs) ys (added a xs m)"
  by (induction xs arbitrary: a m) simp_all

lemma decoded_to_dict:
  "list_all task_ok ts \<Longrightarrow> decoded (map to_dict ts) = ts \<and> list_all record_ok (map to_dict ts)"
  by (induction ts) (simp_all add: decoded_Nil decoded_Cons from_dict_to_dict record_ok_def)

lemma tasks_of_middle:
  "tasks_of (xs @ ys @ zs) [length xs ..< length xs + length ys] = ys"
proof -
  have "[length xs ..< length xs + length ys] = map (\<lambda>i. i + length xs) [0 ..< length ys]"
    by (simp add: map_add_upt add.commute)
  then have "tasks_of (xs @ ys @ zs) [length xs ..< length xs + length ys] =
               map (\<lambda>i. (xs @ ys @ zs) ! (i + length xs)) [0 ..< length ys]"
    by (simp add: tasks_of_def comp_def)
  also have "\<dots> = map (\<lambda>i. ys ! i) [0 ..< length ys]"
    by (rule map_cong) (simp_all add: nth_append)
  also have "\<dots> = ys"
    by (rule map_nth)
  finally show ?thesis .
qed

lemma store_ok_tasks:
  assumes "store_ok w"
  shows "list_all task_ok (tasks_of (heap w) (task_high (lm w)))"
    and "list_all task_ok (tasks_of (heap w) (task_mid (lm w)))"
    and "list_all task_ok (tasks_of (heap w) (task_low (lm w)))"
    and "list_all (\<lambda>t. priority t = HIGH) (tasks_of (heap w) (task_high (lm w)))"
    and "list_all (\<lambda>t. priority t = MID) (tasks_of (heap w) (task_mid (lm w)))"
    and "list_all (\<lambda>t. priority t = LOW) (tasks_of (heap w) (task_low (lm w)))"
  using assms
  by (simp_all add: store_ok_def buckets_ok_def bucket_ok_def tasks_of_def list_all_iff)

text \<open>
  C1: for a store in which every task is in the list of its priority and has the fields
  that the constructor accepts, \<open>save_tasks\<close> followed by \<open>import_tasks\<close> into a new, empty
  manager succeeds, and each of the three lists of the new manager holds tasks with the
  same five fields as the tasks of the corresponding list of the old one, in the same
  order.
\<close>

theorem save_import_roundtrip:
  assumes "store_ok w"
  shows "snd (save_then_import w h0) = [Imported]
       \<and> tasks_of (heap (fst (save_then_import w h0))) (task_high (lm (fst (save_then_import w h0))))
           = tasks_of (heap w) (task_high (lm w))
       \<and> tasks_of (heap (fst (save_then_import w h0))) (task_mid (lm (fst (save_then_import w h0))))
           = tasks_of (heap w) (task_mid (lm w))
       \<and> tasks_of (heap (fst (save_then_import w h0))) (task_low (lm (fst (save_then_import w h0))))
           = tasks_of (heap w) (task_low (lm w))"
proof -
  let ?H = "tasks_of (heap w) (task_high (lm w))"
  let ?M = "tasks_of (heap w) (task_mid (lm w))"
  let ?L = "tasks_of (heap w) (task_low (lm w))"
  let ?a = "length h0"
  let ?m = "\<lparr> task_low = [?a + length ?H + length ?M ..< ?a + length ?H + length ?M + length ?L],
               task_mid = [?a + length ?H ..< ?a + length ?H + length ?M],
               task_high = [?a ..< ?a + length ?H] \<rparr>"
  note ok = store_ok_tasks [OF assms]
  have d: "save_data w =
             PyDict [(''high'', PyList (map to_dict ?H)), (''mid'', PyList (map to_dict ?M)),
                     (''low'', PyList (map to_dict ?L))]"
    by (simp add: save_data_def tasks_of_def)
  have all: "list_all task_ok (?H @ ?M @ ?L)"
    using ok(1-3) by simp
  have dec: "decoded (map to_dict ?H @ map to_dict ?M @ map to_dict ?L) = ?H @ ?M @ ?L"
    "list_all record_ok (map to_dict ?H @ map to_dict ?M @ map to_dict ?L)"
    using decoded_to_dict [OF all] by simp_all
  have "import_data (save_data w) (h0, TaskManager_init) =
          import_loop (map to_dict ?H @ map to_dict ?M @ map to_dict ?L) (h0, TaskManager_init)"
    unfolding d by (rule import_data_lists) (simp_all add: py_get_def)
  also have "\<dots> = ((h0 @ ?H @ ?M @ ?L, added ?a (?H @ ?M @ ?L) TaskManager_init), None)"
    using import_loop_ok [OF dec(2), of h0 TaskManager_init] unfolding dec(1) .
  also have "added ?a (?H @ ?M @ ?L) TaskManager_init = ?m"
    by (simp add: added_append added_same_priority [OF ok(4)] added_same_priority [OF ok(5)]
        added_same_priority [OF ok(6)] TaskManager_init_def set_bucket_def bucket_of_def)
  finally have i: "import_data (save_data w) (h0, TaskManager_init) =
                     ((h0 @ ?H @ ?M @ ?L, ?m), None)" .
  have r: "save_then_import w h0 =
             (\<lparr> heap = h0 @ ?H @ ?M @ ?L, lm = ?m, task_file = Json (save_data w) \<rparr>, [Imported])"
    by (simp add: save_then_import_def save_tasks_def import_tasks_def i)
  have h: "tasks_of (h0 @ ?H @ ?M @ ?L) [?a ..< ?a + length ?H] = ?H"
    by (rule tasks_of_middle)
  have m: "tasks_of (h0 @ ?H @ ?M @ ?L) [?a + length ?H ..< ?a + length ?H + length ?M] = ?M"
    using tasks_of_middle [of "h0 @ ?H" ?M ?L] by simp
  have l: "tasks_of (h0 @ ?H @ ?M @ ?L)
             [?a + length ?H + length ?M ..< ?a + length ?H + length ?M + length ?L] = ?L"
    using tasks_of_middle [of "h0 @ ?H @ ?M" ?L "[]"] by (simp add: add.assoc)
  show ?thesis
    unfolding r using h m l by simp
qed

text \<open>
  The theorem at a store with one task in each list, one of them completed.
\<close>

theorem save_import_roundtrip_witness:
  "store_ok example_world
   \<and> snd (save_then_import example_world []) = [Imported]
   \<and> tasks_of (heap (fst (save_then_import example_world [])))
        (task_high (lm (fst (save_then_import example_world [])))) = [report_task]
   \<and> tasks_of (heap (fst (save_then_import example_world [])))
        (task_mid (lm (fst (save_then_import example_world [])))) = [study_task]
   \<and> tasks_of (heap (fst (save_then_import example_world [])))
        (task_low (lm (fst (save_then_import example_world [])))) = [errand_task]"
proof -
  have p: "priority report_task = HIGH" "priority errand_task = LOW" "priority study_task = MID"
    by (simp_all add: report_task_def errand_task_def study_task_def)
  have h: "store_ok example_world"
    by (simp add: store_ok_def buckets_ok_def bucket_ok_def example_world_def task_ok_examples p)
  have t: "tasks_of (heap example_world) (task_high (lm example_world)) = [report_task]"
    "tasks_of (heap example_world) (task_mid (lm example_world)) = [study_task]"
    "tasks_of (heap example_world) (task_low (lm example_world)) = [errand_task]"
    by (simp_all add: tasks_of_def example_world_def)
  show ?thesis
    using save_import_roundtrip [OF h, of "[]"] h unfolding t by blast
qed

end
